theory Spec2Isabelle
  imports Main "HOL-Library.Sublist"
begin

section \<open>Strings\<close>

text \<open>\<^verbatim>\<open>String.prototype.split\<close> with a one-character separator.\<close>

fun js_split :: "char \<Rightarrow> string \<Rightarrow> string list" where
  "js_split sep [] = [[]]"
| "js_split sep (c # cs) =
     (if c = sep then [] # js_split sep cs
      else (case js_split sep cs of [] \<Rightarrow> [[c]] | w # ws \<Rightarrow> (c # w) # ws))"

text \<open>\<^verbatim>\<open>String.prototype.includes\<close>: the needle occurs somewhere in the string.\<close>

fun js_includes :: "string \<Rightarrow> string \<Rightarrow> bool" where
  "js_includes [] needle = (needle = [])"
| "js_includes (c # cs) needle = (prefix needle (c # cs) \<or> js_includes cs needle)"

section \<open>The counter store\<close>

text \<open>
  The program keeps its usage counters in Firestore, in two collections:
  \<^verbatim>\<open>firestore.collection("ip-usage").doc(`${ipAddress}_${today}`)\<close> and
  \<^verbatim>\<open>firestore.collection("global-usage").doc(today)\<close>.
  A document reference is the path of the document, the list of its components, the
  collection first. The only field the program reads or writes is \<^verbatim>\<open>count\<close>, written
  with \<^verbatim>\<open>{ merge: true }\<close>, so a document is modelled by the value of that field: the
  store maps a reference to \<open>None\<close> when the document does not exist (\<^verbatim>\<open>doc.exists\<close> is
  false) and to \<open>Some c\<close> when it exists with \<^verbatim>\<open>count\<close> equal to \<open>c\<close>. Counts are
  integers: every value the program writes is a stored integer plus one, below the range
  where a JavaScript number stops being exact.
\<close>

type_synonym docref = "string list"

type_synonym store = "docref \<rightharpoonup> int"

datatype js_error = StoreError | TypeError | ProviderError | InvalidArgument

text \<open>
  \<^verbatim>\<open>CollectionReference.doc(documentPath)\<close> belongs to the Firestore client library, not
  to this repository; the program calls it with a string made from the client identifier,
  so what it does with that string is part of the program's behaviour. The library
  refuses the empty string and a string that contains \<^verbatim>\<open>//\<close>; it splits the string at
  every \<^verbatim>\<open>/\<close>, drops the empty segments (a leading or a trailing slash), appends the rest
  to the path of the collection, and refuses the result unless it has an even number of
  components. Each refusal is a thrown \<^verbatim>\<open>Error\<close>.
\<close>

definition validateResourcePath :: "string \<Rightarrow> js_error + unit" where
  "validateResourcePath resourcePath =
     (if resourcePath = [] then Inl InvalidArgument
      else if js_includes resourcePath ''//'' then Inl InvalidArgument
      else Inr ())"

definition ResourcePath_split :: "string \<Rightarrow> string list" where
  "ResourcePath_split relativePath =
     filter (\<lambda>segment. segment \<noteq> []) (js_split CHR ''/'' relativePath)"

definition doc :: "string \<Rightarrow> string \<Rightarrow> js_error + docref" where
  "doc collection documentPath =
     (case validateResourcePath documentPath of
        Inl e \<Rightarrow> Inl e
      | Inr _ \<Rightarrow>
          (let path = [collection] @ ResourcePath_split documentPath
           in if even (length path) then Inr path else Inl InvalidArgument))"

text \<open>
  What a transaction does to the store, in the order it is issued.
\<close>

datatype store_op = TxGet docref | TxSet docref int

text \<open>
  Where a call of \<^verbatim>\<open>firestore.runTransaction\<close> is rejected by the infrastructure, if it
  is: at the first \<^verbatim>\<open>transaction.get\<close>, at the second, or at the commit after the update
  function has returned.
\<close>

datatype tx_fault = NoFault | FirstGetFails | SecondGetFails | CommitFails

record transaction =
  snapshot :: store
  oplog :: "store_op list"

definition transaction_get ::
  "bool \<Rightarrow> transaction \<Rightarrow> docref \<Rightarrow> (js_error + int option) \<times> transaction" where
  "transaction_get fails t r =
     ((if fails then Inl StoreError else Inr (snapshot t r)),
      t\<lparr>oplog := oplog t @ [TxGet r]\<rparr>)"

definition transaction_set :: "transaction \<Rightarrow> docref \<Rightarrow> int \<Rightarrow> transaction" where
  "transaction_set t r c = t\<lparr>oplog := oplog t @ [TxSet r c]\<rparr>"

fun apply_writes :: "store_op list \<Rightarrow> store \<Rightarrow> store" where
  "apply_writes [] s = s"
| "apply_writes (TxGet r # ops) s = apply_writes ops s"
| "apply_writes (TxSet r c # ops) s = apply_writes ops (s(r \<mapsto> c))"

text \<open>
  \<^verbatim>\<open>firestore.runTransaction(updateFunction)\<close>: the update function runs against the
  committed state; its buffered writes are applied together when the commit succeeds, and
  not at all when the promise is rejected. The result carries the store afterwards and the
  operations that were issued.
\<close>

definition runTransaction ::
  "tx_fault \<Rightarrow> store \<Rightarrow> (transaction \<Rightarrow> (js_error + bool) \<times> transaction)
     \<Rightarrow> (js_error + bool) \<times> store \<times> store_op list" where
  "runTransaction fault s updateFunction =
     (case updateFunction \<lparr>snapshot = s, oplog = []\<rparr> of
        (Inl e, t) \<Rightarrow> (Inl e, s, oplog t)
      | (Inr r, t) \<Rightarrow>
          if fault = CommitFails then (Inl StoreError, s, oplog t)
          else (Inr r, apply_writes (oplog t) s, oplog t))"

section \<open>The admission controller\<close>

definition IP_LIMIT :: int where
  "IP_LIMIT = 100"

definition GLOBAL_LIMIT :: int where
  "GLOBAL_LIMIT = 1000"

text \<open>
  The two references \<^verbatim>\<open>checkAndRecordUsage\<close> builds (\<^verbatim>\<open>src/index.ts\<close> 140 to 143,
  \<^verbatim>\<open>index.js\<close> 106 to 109): each is a call of \<^verbatim>\<open>doc\<close>, which may throw.
\<close>

definition ipDocRef :: "string \<Rightarrow> string \<Rightarrow> js_error + docref" where
  "ipDocRef ipAddress today = doc ''ip-usage'' (ipAddress @ ''_'' @ today)"

definition globalDocRef :: "string \<Rightarrow> js_error + docref" where
  "globalDocRef today = doc ''global-usage'' today"

text \<open>
  The function passed to \<^verbatim>\<open>runTransaction\<close> in \<^verbatim>\<open>checkAndRecordUsage\<close>; it is the
  same text in \<^verbatim>\<open>src/index.ts\<close> and in \<^verbatim>\<open>index.js\<close>.
\<close>

definition updateFunction ::
  "tx_fault \<Rightarrow> docref \<Rightarrow> docref \<Rightarrow> transaction \<Rightarrow> (js_error + bool) \<times> transaction" where
  "updateFunction fault ipRef globalRef t0 =
     (case transaction_get (fault = FirstGetFails) t0 ipRef of
        (Inl e, t1) \<Rightarrow> (Inl e, t1)
      | (Inr ipDoc, t1) \<Rightarrow>
     (case transaction_get (fault = SecondGetFails) t1 globalRef of
        (Inl e, t2) \<Rightarrow> (Inl e, t2)
      | (Inr globalDoc, t2) \<Rightarrow>
          (let ipCount = (case ipDoc of Some c \<Rightarrow> c | None \<Rightarrow> 0);
               globalCount = (case globalDoc of Some c \<Rightarrow> c | None \<Rightarrow> 0)
           in if ipCount \<ge> IP_LIMIT then (Inr False, t2)
              else if globalCount \<ge> GLOBAL_LIMIT then (Inr False, t2)
              else (Inr True,
                    transaction_set (transaction_set t2 ipRef (ipCount + 1))
                      globalRef (globalCount + 1)))))"

text \<open>
  The configuration read by \<^verbatim>\<open>checkAndRecordUsage\<close>: the \<^verbatim>\<open>ips\<close> array of
  \<^verbatim>\<open>whitelist.json\<close> and the environment variable \<^verbatim>\<open>BYPASS_RATE_LIMITING\<close>
  (\<open>None\<close> when it is not set).
\<close>

record config =
  WHITELISTED_IPS :: "string list"
  env_BYPASS_RATE_LIMITING :: "string option"

record outcome =
  allowed :: bool
  store_after :: store
  trace :: "store_op list"

text \<open>
  \<^verbatim>\<open>checkAndRecordUsage(ipAddress: string)\<close> of \<^verbatim>\<open>src/index.ts\<close>. \<open>today\<close> is the value
  of \<^verbatim>\<open>new Date().toISOString().split("T")[0]\<close> at the call, \<open>fault\<close> what the
  infrastructure does to the transaction of this call, \<open>s\<close> the committed store.
  The two document references are built before the \<^verbatim>\<open>try\<close> block, so what \<^verbatim>\<open>doc\<close>
  throws leaves the function (\<open>Inl\<close>); nothing has touched the store by then. What the
  transaction throws is caught. What Firestore throws is an \<^verbatim>\<open>Error\<close> object, so the
  logging of the \<^verbatim>\<open>catch\<close> block does not throw in its turn.
\<close>

definition checkAndRecordUsage ::
  "config \<Rightarrow> tx_fault \<Rightarrow> string \<Rightarrow> string \<Rightarrow> store \<Rightarrow> js_error + outcome" where
  "checkAndRecordUsage cfg fault today ipAddress s =
     (let BYPASS_RATE_LIMITING = (env_BYPASS_RATE_LIMITING cfg = Some ''true'') in
      if BYPASS_RATE_LIMITING then Inr \<lparr>allowed = True, store_after = s, trace = []\<rparr>
      else
        let isWhitelisted = (ipAddress \<in> set (WHITELISTED_IPS cfg)) in
        if isWhitelisted then Inr \<lparr>allowed = True, store_after = s, trace = []\<rparr>
        else
          (case ipDocRef ipAddress today of
             Inl e \<Rightarrow> Inl e
           | Inr ipRef \<Rightarrow>
          (case globalDocRef today of
             Inl e \<Rightarrow> Inl e
           | Inr globalRef \<Rightarrow>
          (case runTransaction fault s (updateFunction fault ipRef globalRef) of
             (Inr result, s', ops) \<Rightarrow>
               Inr \<lparr>allowed = result, store_after = s', trace = ops\<rparr>
           | (Inl e, s', ops) \<Rightarrow>
               Inr \<lparr>allowed = False, store_after = s', trace = ops\<rparr>))))"

text \<open>
  The same function in \<^verbatim>\<open>index.js\<close>, where nothing restricts the argument to a string:
  the caller passes \<^verbatim>\<open>req.ip\<close> as it is, which may be \<^verbatim>\<open>undefined\<close> (\<open>None\<close>).
  \<^verbatim>\<open>Array.prototype.includes\<close> finds \<^verbatim>\<open>undefined\<close> in no array of strings, and the template
  literal writes it as the nine characters \<^verbatim>\<open>undefined\<close>.
\<close>

definition template_literal :: "string option \<Rightarrow> string" where
  "template_literal v = (case v of None \<Rightarrow> ''undefined'' | Some x \<Rightarrow> x)"

definition checkAndRecordUsage_js ::
  "config \<Rightarrow> tx_fault \<Rightarrow> string \<Rightarrow> string option \<Rightarrow> store \<Rightarrow> js_error + outcome" where
  "checkAndRecordUsage_js cfg fault today ipAddress s =
     (let BYPASS_RATE_LIMITING = (env_BYPASS_RATE_LIMITING cfg = Some ''true'') in
      if BYPASS_RATE_LIMITING then Inr \<lparr>allowed = True, store_after = s, trace = []\<rparr>
      else
        let isWhitelisted =
              (case ipAddress of None \<Rightarrow> False | Some x \<Rightarrow> x \<in> set (WHITELISTED_IPS cfg)) in
        if isWhitelisted then Inr \<lparr>allowed = True, store_after = s, trace = []\<rparr>
        else
          (case ipDocRef (template_literal ipAddress) today of
             Inl e \<Rightarrow> Inl e
           | Inr ipRef \<Rightarrow>
          (case globalDocRef today of
             Inl e \<Rightarrow> Inl e
           | Inr globalRef \<Rightarrow>
          (case runTransaction fault s (updateFunction fault ipRef globalRef) of
             (Inr result, s', ops) \<Rightarrow>
               Inr \<lparr>allowed = result, store_after = s', trace = ops\<rparr>
           | (Inl e, s', ops) \<Rightarrow>
               Inr \<lparr>allowed = False, store_after = s', trace = ops\<rparr>))))"

text \<open>
  Whether a call returned \<^verbatim>\<open>true\<close>, and the store it leaves behind when it started in
  \<open>s\<close>: a call that threw has not touched the store.
\<close>

definition returned_true :: "js_error + outcome \<Rightarrow> bool" where
  "returned_true r = (case r of Inl e \<Rightarrow> False | Inr out \<Rightarrow> allowed out)"


definition store_left :: "store \<Rightarrow> js_error + outcome \<Rightarrow> store" where
  "store_left s r = (case r of Inl e \<Rightarrow> s | Inr out \<Rightarrow> store_after out)"

text \<open>
  The count of a document, a missing document counting as zero as in the update
  function, and the two counts of a client and a day. A client identifier for which
  \<^verbatim>\<open>doc\<close> throws has no document, and no count but zero.
\<close>

definition count_at :: "store \<Rightarrow> docref \<Rightarrow> int" where
  "count_at s r = (case s r of Some c \<Rightarrow> c | None \<Rightarrow> 0)"

definition ipCount :: "store \<Rightarrow> string \<Rightarrow> string \<Rightarrow> int" where
  "ipCount s ipAddress today =
     (case ipDocRef ipAddress today of Inl e \<Rightarrow> 0 | Inr r \<Rightarrow> count_at s r)"

definition globalCount :: "store \<Rightarrow> string \<Rightarrow> int" where
  "globalCount s today = (case globalDocRef today of Inl e \<Rightarrow> 0 | Inr r \<Rightarrow> count_at s r)"

text \<open>
  Whether a call goes past the bypass and the allow-list, and whether the two counts it
  reads are both below their limits.
\<close>

definition quota_path :: "config \<Rightarrow> string \<Rightarrow> bool" where
  "quota_path cfg ipAddress \<longleftrightarrow>
     env_BYPASS_RATE_LIMITING cfg \<noteq> Some ''true'' \<and> ipAddress \<notin> set (WHITELISTED_IPS cfg)"

definition below_limits :: "store \<Rightarrow> string \<Rightarrow> string \<Rightarrow> bool" where
  "below_limits s ipAddress today \<longleftrightarrow>
     ipCount s ipAddress today < IP_LIMIT \<and> globalCount s today < GLOBAL_LIMIT"

definition within_limits :: "store \<Rightarrow> bool" where
  "within_limits s \<longleftrightarrow>
     (\<forall>ipAddress today. ipCount s ipAddress today \<le> IP_LIMIT) \<and>
     (\<forall>today. globalCount s today \<le> GLOBAL_LIMIT)"

text \<open>
  What \<^verbatim>\<open>toISOString().split("T")[0]\<close> can be: a date \<^verbatim>\<open>YYYY-MM-DD\<close>, or with a signed
  six-digit year; in any case a non-empty string of digits and signs.
\<close>

definition is_day :: "string \<Rightarrow> bool" where
  "is_day d \<longleftrightarrow> d \<noteq> [] \<and> list_all (\<lambda>c. c \<in> set ''0123456789-+'') d"

text \<open>
  Whether two client identifiers are kept in the same document on a day: \<^verbatim>\<open>doc\<close> drops
  a leading slash, so that \<^verbatim>\<open>/x\<close> and \<^verbatim>\<open>x\<close> are.
\<close>

definition shares_document :: "string \<Rightarrow> string \<Rightarrow> string \<Rightarrow> bool" where
  "shares_document ip ip' d =
     (case ipDocRef ip d of
        Inl e \<Rightarrow> False
      | Inr r \<Rightarrow> (case ipDocRef ip' d of Inl e \<Rightarrow> False | Inr r' \<Rightarrow> r = r'))"

section \<open>Sequences of calls\<close>

text \<open>
  The function is invoked once per request; the transactions are serialised by the store,
  so a history is a list of calls, each running against the state the previous one left.
  A call carries the client identifier, the day its clock reads and the fault, if any,
  that hits its transaction.
\<close>

record call =
  call_ip :: string
  call_today :: string
  call_fault :: tx_fault

definition admit :: "config \<Rightarrow> call \<Rightarrow> store \<Rightarrow> js_error + outcome" where
  "admit cfg k s = checkAndRecordUsage cfg (call_fault k) (call_today k) (call_ip k) s"


fun stores :: "config \<Rightarrow> store \<Rightarrow> call list \<Rightarrow> store list" where
  "stores cfg s [] = []"
| "stores cfg s (k # ks) =
     store_left s (admit cfg k s) # stores cfg (store_left s (admit cfg k s)) ks"

fun final_store :: "config \<Rightarrow> store \<Rightarrow> call list \<Rightarrow> store" where
  "final_store cfg s [] = s"
| "final_store cfg s (k # ks) = final_store cfg (store_left s (admit cfg k s)) ks"


section \<open>The request handler\<close>

text \<open>
  What \<^verbatim>\<open>apiProxy\<close> reads of a request: \<^verbatim>\<open>req.path\<close>, \<^verbatim>\<open>req.ip\<close> (a string or
  \<^verbatim>\<open>undefined\<close>), \<^verbatim>\<open>req.get("X-Forwarded-For")\<close> (a string or \<^verbatim>\<open>undefined\<close>) and
  \<^verbatim>\<open>req.body.prompt\<close>. Header values are strings of one-byte code units.
\<close>

record request =
  req_path :: string
  req_ip :: "string option"
  req_X_Forwarded_For :: "string option"
  req_body_prompt :: "string option"

text \<open>
  \<^verbatim>\<open>String.prototype.trim\<close> removes white space and line terminators from both ends;
  among one-byte code units these are TAB, LF, VT, FF, CR, SP and NBSP.
\<close>

definition js_whitespace :: "char \<Rightarrow> bool" where
  "js_whitespace c \<longleftrightarrow>
     c \<in> set [CHR 0x09, CHR 0x0A, CHR 0x0B, CHR 0x0C, CHR 0x0D, CHR 0x20, CHR 0xA0]"

definition js_trim :: "string \<Rightarrow> string" where
  "js_trim x = rev (dropWhile js_whitespace (rev (dropWhile js_whitespace x)))"

text \<open>
  Lines 64 to 70 of \<^verbatim>\<open>src/index.ts\<close> (31 to 37 of \<^verbatim>\<open>index.js\<close>): the value of the
  variable \<^verbatim>\<open>ipAddress\<close> when the throttling logic starts. Element 0 of an empty array
  would be \<^verbatim>\<open>undefined\<close>, and calling \<^verbatim>\<open>trim\<close> on it a \<^verbatim>\<open>TypeError\<close>.
\<close>

definition resolve_ipAddress :: "request \<Rightarrow> js_error + string option" where
  "resolve_ipAddress req =
     (let ipAddress = req_ip req; forwardedFor = req_X_Forwarded_For req
      in case forwardedFor of
           None \<Rightarrow> Inr ipAddress
         | Some f \<Rightarrow>
             if f = [] then Inr ipAddress
             else (case js_split CHR '','' f of
                     [] \<Rightarrow> Inl TypeError
                   | x # _ \<Rightarrow> Inr (Some (js_trim x))))"

text \<open>\<^verbatim>\<open>ipAddress || ""\<close>, the argument \<^verbatim>\<open>src/index.ts\<close> passes on.\<close>

definition or_empty :: "string option \<Rightarrow> string" where
  "or_empty v = (case v of None \<Rightarrow> [] | Some x \<Rightarrow> if x = [] then [] else x)"

definition clientIdentifier :: "request \<Rightarrow> js_error + string" where
  "clientIdentifier req =
     (case resolve_ipAddress req of Inl e \<Rightarrow> Inl e | Inr v \<Rightarrow> Inr (or_empty v))"

text \<open>
  The three handlers call external services; each either returns a string or throws.
\<close>

record providers =
  handleTTS :: "string option \<Rightarrow> js_error + string"
  handleOpenAI :: "string option \<Rightarrow> js_error + string"
  handleGemini :: "string option \<Rightarrow> js_error + string"

datatype payload = ErrorBody string | ReplyBody string | TextBody string

record response =
  res_status :: nat
  res_content_type :: "string option"
  res_payload :: payload

definition internal_error :: response where
  "internal_error =
     \<lparr>res_status = 500, res_content_type = None,
      res_payload = ErrorBody ''An internal server error occurred.''\<rparr>"

text \<open>
  The \<^verbatim>\<open>try\<close> block of \<^verbatim>\<open>apiProxy\<close> that routes on the URL path (the same text in both
  files); whatever a handler throws is caught and answered with status 500.
\<close>

definition route_request :: "providers \<Rightarrow> request \<Rightarrow> response" where
  "route_request ps req =
     (let path = req_path req; prompt = req_body_prompt req
      in if js_includes path ''/tts'' then
           (case handleTTS ps prompt of
              Inr base64Audio \<Rightarrow>
                \<lparr>res_status = 200, res_content_type = Some ''text/plain'',
                 res_payload = TextBody base64Audio\<rparr>
            | Inl e \<Rightarrow> internal_error)
         else if js_includes path ''/openai'' then
           (case handleOpenAI ps prompt of
              Inr textResponse \<Rightarrow>
                \<lparr>res_status = 200, res_content_type = None,
                 res_payload = ReplyBody textResponse\<rparr>
            | Inl e \<Rightarrow> internal_error)
         else if js_includes path ''/gemini'' then
           (case handleGemini ps prompt of
              Inr textResponse \<Rightarrow>
                \<lparr>res_status = 200, res_content_type = None,
                 res_payload = ReplyBody textResponse\<rparr>
            | Inl e \<Rightarrow> internal_error)
         else
           \<lparr>res_status = 404, res_content_type = None,
            res_payload = ErrorBody ''Endpoint not found.''\<rparr>)"

definition rate_limited :: response where
  "rate_limited =
     \<lparr>res_status = 429, res_content_type = None,
      res_payload = ErrorBody ''Rate limit exceeded.''\<rparr>"

text \<open>
  \<^verbatim>\<open>apiProxy\<close> of \<^verbatim>\<open>src/index.ts\<close>. The identifier is resolved and
  \<^verbatim>\<open>checkAndRecordUsage\<close> awaited before the \<^verbatim>\<open>try\<close> block, so what that call throws
  is not caught: it leaves the handler (\<open>Inl\<close>) with the store as it was.
\<close>

definition apiProxy ::
  "config \<Rightarrow> providers \<Rightarrow> tx_fault \<Rightarrow> string \<Rightarrow> request \<Rightarrow> store
     \<Rightarrow> (js_error + response) \<times> store" where
  "apiProxy cfg ps fault today req s =
     (case resolve_ipAddress req of
        Inl e \<Rightarrow> (Inl e, s)
      | Inr ipAddress \<Rightarrow>
          (case checkAndRecordUsage cfg fault today (or_empty ipAddress) s of
             Inl e \<Rightarrow> (Inl e, s)
           | Inr out \<Rightarrow>
               if \<not> allowed out then (Inr rate_limited, store_after out)
               else (Inr (route_request ps req), store_after out)))"

text \<open>\<^verbatim>\<open>apiProxy\<close> of \<^verbatim>\<open>index.js\<close>, which passes \<^verbatim>\<open>ipAddress\<close> on as it is.\<close>

definition apiProxy_js ::
  "config \<Rightarrow> providers \<Rightarrow> tx_fault \<Rightarrow> string \<Rightarrow> request \<Rightarrow> store
     \<Rightarrow> (js_error + response) \<times> store" where
  "apiProxy_js cfg ps fault today req s =
     (case resolve_ipAddress req of
        Inl e \<Rightarrow> (Inl e, s)
      | Inr ipAddress \<Rightarrow>
          (case checkAndRecordUsage_js cfg fault today ipAddress s of
             Inl e \<Rightarrow> (Inl e, s)
           | Inr out \<Rightarrow>
               if \<not> allowed out then (Inr rate_limited, store_after out)
               else (Inr (route_request ps req), store_after out)))"

section \<open>Strings and document references\<close>

lemma js_split_nonempty: "js_split sep f \<noteq> []"
  by (induction f) (auto split: list.splits)

lemma js_split_hd: "js_split sep f = takeWhile (\<lambda>c. c \<noteq> sep) f # tl (js_split sep f)"
  by (induction f) (auto split: list.splits)

lemma js_split_plain: "sep \<notin> set p \<Longrightarrow> js_split sep p = [p]"
  by (induction p) auto


lemma js_split_inj: "js_split sep x = js_split sep y \<Longrightarrow> x = y"
proof (induction x arbitrary: y)
  case Nil
  then show ?case
    using js_split_nonempty [of sep "tl y"]
    by (cases y) (auto split: if_splits list.splits)
next
  case (Cons c cs)
  show ?case
  proof (cases y)
    case Nil
    with Cons.prems show ?thesis
      using js_split_nonempty [of sep cs] by (auto split: if_splits list.splits)
  next
    case (Cons c' cs')
    with Cons.prems have "c = c' \<and> js_split sep cs = js_split sep cs'"
      using js_split_nonempty [of sep cs] js_split_nonempty [of sep cs']
      by (auto split: if_splits list.splits)
    with Cons.IH [of cs'] Cons show ?thesis by simp
  qed
qed

lemma js_split_segments:
  "p \<noteq> [] \<Longrightarrow> last p \<noteq> sep \<Longrightarrow> \<not> js_includes p [sep, sep] \<Longrightarrow>
     [] \<notin> set (tl (js_split sep p)) \<and> (hd (js_split sep p) = [] \<longleftrightarrow> hd p = sep)"
proof (induction p)
  case Nil
  then show ?case by simp
next
  case (Cons c cs)
  show ?case
  proof (cases "cs = []")
    case True
    with Cons.prems show ?thesis by simp
  next
    case False
    with Cons.prems have ih: "[] \<notin> set (tl (js_split sep cs)) \<and>
        (hd (js_split sep cs) = [] \<longleftrightarrow> hd cs = sep)"
      by (intro Cons.IH) auto
    obtain w ws where j: "js_split sep cs = w # ws"
      using js_split_nonempty [of sep cs] by (cases "js_split sep cs") auto
    from False obtain c' cs' where cs: "cs = c' # cs'" by (cases cs) auto
    show ?thesis
    proof (cases "c = sep")
      case True
      with Cons.prems cs have "c' \<noteq> sep" by auto
      with ih j cs True show ?thesis by auto
    next
      case False
      with ih j show ?thesis by auto
    qed
  qed
qed

lemma js_includes_sublist: "js_includes p n \<longleftrightarrow> sublist n p"
  by (induction p) (simp_all add: sublist_Cons_right)

lemma js_includes_iff: "js_includes p n \<longleftrightarrow> (\<exists>u w. p = u @ n @ w)"
  by (simp add: js_includes_sublist sublist_def)

lemma js_includes_slashes: "CHR ''/'' \<notin> set p \<Longrightarrow> \<not> js_includes p ''//''"
  by (auto simp: js_includes_iff)



lemma doc_hd: "doc collection p = Inr r \<Longrightarrow> \<exists>segs. r = collection # segs"
  by (auto simp: doc_def Let_def split: sum.splits if_splits)

lemma ipDocRef_hd: "ipDocRef ip d = Inr r \<Longrightarrow> \<exists>segs. r = ''ip-usage'' # segs"
  by (simp add: ipDocRef_def doc_hd)

lemma globalDocRef_hd: "globalDocRef d = Inr r \<Longrightarrow> \<exists>segs. r = ''global-usage'' # segs"
  by (simp add: globalDocRef_def doc_hd)

lemma docrefs_distinct: "ipDocRef ip d = Inr ir \<Longrightarrow> globalDocRef d' = Inr gr \<Longrightarrow> ir \<noteq> gr"
  by (auto simp: ipDocRef_def globalDocRef_def dest!: doc_hd)

lemma doc_plain:
  "p \<noteq> [] \<Longrightarrow> CHR ''/'' \<notin> set p \<Longrightarrow> doc collection p = Inr [collection, p]"
  by (simp add: doc_def validateResourcePath_def ResourcePath_split_def js_split_plain
        js_includes_slashes)

lemma is_day_chars: "is_day d \<Longrightarrow> d \<noteq> [] \<and> CHR ''/'' \<notin> set d \<and> CHR ''_'' \<notin> set d"
  by (auto simp: is_day_def list_all_iff)

lemma globalDocRef_day: "is_day d \<Longrightarrow> globalDocRef d = Inr [''global-usage'', d]"
  by (simp add: globalDocRef_def doc_plain is_day_chars)

text \<open>
  For a day and an identifier without a slash, the two references are built and are what
  they look like.
\<close>

lemma ipDocRef_plain:
  "is_day d \<Longrightarrow> CHR ''/'' \<notin> set ip \<Longrightarrow> ipDocRef ip d = Inr [''ip-usage'', ip @ ''_'' @ d]"
  by (simp add: ipDocRef_def doc_plain is_day_chars)

lemma day_2024: "is_day ''2024-05-01''" "is_day ''2024-05-02''"
  by (simp_all add: is_day_def)

lemma undefined_2024:
  "ipDocRef ''undefined'' ''2024-05-01'' = Inr [''ip-usage'', ''undefined_2024-05-01'']"
  "ipDocRef [] ''2024-05-01'' = Inr [''ip-usage'', ''_2024-05-01'']"
  "globalDocRef ''2024-05-01'' = Inr [''global-usage'', ''2024-05-01'']"
  using ipDocRef_plain [OF day_2024(1), of "''undefined''"] ipDocRef_plain [OF day_2024(1), of "[]"]
    globalDocRef_day [OF day_2024(1)]
  by simp_all



text \<open>Client identifiers without a slash have a document each.\<close>

lemma shares_document_plain:
  "is_day d \<Longrightarrow> CHR ''/'' \<notin> set ip \<Longrightarrow> CHR ''/'' \<notin> set ip' \<Longrightarrow>
     shares_document ip ip' d \<longleftrightarrow> ip = ip'"
  by (simp add: shares_document_def ipDocRef_plain)

text \<open>
  Client identifiers that do not begin with a slash have a document each; one that does
  shares the document of the identifier without it.
\<close>

lemma shares_document_iff:
  assumes "is_day d" and "\<not> prefix ''/'' ip" and "\<not> prefix ''/'' ip'"
    and "shares_document ip ip' d"
  shows "ip = ip'"
proof -
  have segs: "ResourcePath_split (x @ ''_'' @ d) = js_split CHR ''/'' (x @ ''_'' @ d)"
    if v: "validateResourcePath (x @ ''_'' @ d) = Inr ()" and x: "\<not> prefix ''/'' x" for x
  proof -
    let ?p = "x @ ''_'' @ d"
    from assms(1) have "d \<noteq> []" and "CHR ''/'' \<notin> set d"
      by (simp_all add: is_day_chars)
    then have "last d \<noteq> CHR ''/''"
      by (metis last_in_set)
    with \<open>d \<noteq> []\<close> have l: "last ?p \<noteq> CHR ''/''"
      by simp
    from v have n: "\<not> js_includes ?p [CHR ''/'', CHR ''/'']"
      by (simp add: validateResourcePath_def split: if_splits)
    from x have h: "hd ?p \<noteq> CHR ''/''"
      by (cases x) auto
    from js_split_segments [of ?p "CHR ''/''"] l n h
    have "[] \<notin> set (tl (js_split CHR ''/'' ?p)) \<and> hd (js_split CHR ''/'' ?p) \<noteq> []"
      by simp
    then have "[] \<notin> set (js_split CHR ''/'' ?p)"
      using js_split_nonempty [of "CHR ''/''" ?p]
      by (cases "js_split CHR ''/'' ?p") auto
    then show ?thesis
      by (simp add: ResourcePath_split_def filter_id_conv) metis
  qed
  from assms(4) obtain r where r: "ipDocRef ip d = Inr r" "ipDocRef ip' d = Inr r"
    by (auto simp: shares_document_def split: sum.splits)
  from r(1) have v: "validateResourcePath (ip @ ''_'' @ d) = Inr ()"
    by (auto simp: ipDocRef_def doc_def split: sum.splits)
  from r(2) have v': "validateResourcePath (ip' @ ''_'' @ d) = Inr ()"
    by (auto simp: ipDocRef_def doc_def split: sum.splits)
  from r v v' have "ResourcePath_split (ip @ ''_'' @ d) = ResourcePath_split (ip' @ ''_'' @ d)"
    by (auto simp: ipDocRef_def doc_def Let_def split: if_splits)
  with segs [OF v assms(2)] segs [OF v' assms(3)]
  have "js_split CHR ''/'' (ip @ ''_'' @ d) = js_split CHR ''/'' (ip' @ ''_'' @ d)"
    by simp
  then have "ip @ ''_'' @ d = ip' @ ''_'' @ d"
    by (rule js_split_inj)
  then show ?thesis by simp
qed

lemma leading_slash_shares: "shares_document ''/'' [] ''2024-05-01''"
  by (simp add: shares_document_def ipDocRef_def doc_def validateResourcePath_def
        ResourcePath_split_def)

section \<open>The quota path in closed form\<close>

lemma count_at_upd: "count_at (s(a \<mapsto> v)) r = (if r = a then v else count_at s r)"
  by (simp add: count_at_def)

lemma limits_positive: "0 < IP_LIMIT" "0 < GLOBAL_LIMIT"
  by (simp_all add: IP_LIMIT_def GLOBAL_LIMIT_def)

lemma updateFunction_NoFault:
  "updateFunction NoFault ir gr \<lparr>snapshot = s, oplog = []\<rparr> =
     (if count_at s ir \<ge> IP_LIMIT \<or> count_at s gr \<ge> GLOBAL_LIMIT
      then (Inr False, \<lparr>snapshot = s, oplog = [TxGet ir, TxGet gr]\<rparr>)
      else (Inr True, \<lparr>snapshot = s,
              oplog = [TxGet ir, TxGet gr, TxSet ir (count_at s ir + 1),
                       TxSet gr (count_at s gr + 1)]\<rparr>))"
  by (simp add: updateFunction_def transaction_get_def transaction_set_def Let_def count_at_def)

lemma runTransaction_NoFault:
  "runTransaction NoFault s (updateFunction NoFault ir gr) =
     (if count_at s ir < IP_LIMIT \<and> count_at s gr < GLOBAL_LIMIT
      then (Inr True, s(ir \<mapsto> count_at s ir + 1, gr \<mapsto> count_at s gr + 1),
            [TxGet ir, TxGet gr, TxSet ir (count_at s ir + 1), TxSet gr (count_at s gr + 1)])
      else (Inr False, s, [TxGet ir, TxGet gr]))"
  by (simp add: runTransaction_def updateFunction_NoFault not_less)

text \<open>The four ways a call can go.\<close>

lemma checkAndRecordUsage_cases:
  obtains (exempt) "\<not> quota_path cfg ip"
      "checkAndRecordUsage cfg fault d ip s = Inr \<lparr>allowed = True, store_after = s, trace = []\<rparr>"
  | (raised) e where "quota_path cfg ip"
      "ipDocRef ip d = Inl e \<or> (\<exists>ir. ipDocRef ip d = Inr ir \<and> globalDocRef d = Inl e)"
      "checkAndRecordUsage cfg fault d ip s = Inl e"
  | (denied) ir gr ops where "quota_path cfg ip" "ipDocRef ip d = Inr ir" "globalDocRef d = Inr gr"
      "fault \<noteq> NoFault \<or> \<not> below_limits s ip d"
      "checkAndRecordUsage cfg fault d ip s =
         Inr \<lparr>allowed = False, store_after = s, trace = TxGet ir # ops\<rparr>"
  | (admitted) ir gr ops where "quota_path cfg ip" "ipDocRef ip d = Inr ir" "globalDocRef d = Inr gr"
      "fault = NoFault" "below_limits s ip d"
      "checkAndRecordUsage cfg fault d ip s =
         Inr \<lparr>allowed = True,
              store_after = s(ir \<mapsto> count_at s ir + 1, gr \<mapsto> count_at s gr + 1),
              trace = TxGet ir # ops\<rparr>"
proof (cases "quota_path cfg ip")
  case False
  then have "checkAndRecordUsage cfg fault d ip s =
      Inr \<lparr>allowed = True, store_after = s, trace = []\<rparr>"
    by (auto simp: checkAndRecordUsage_def quota_path_def)
  with False show ?thesis by (rule exempt)
next
  case q: True
  show ?thesis
  proof (cases "ipDocRef ip d")
    case (Inl e)
    with q have "checkAndRecordUsage cfg fault d ip s = Inl e"
      by (simp add: checkAndRecordUsage_def quota_path_def)
    with q Inl show ?thesis by (intro raised [of e]) simp_all
  next
    case ir: (Inr ir)
    show ?thesis
    proof (cases "globalDocRef d")
      case (Inl e)
      with q ir have "checkAndRecordUsage cfg fault d ip s = Inl e"
        by (simp add: checkAndRecordUsage_def quota_path_def)
      with q ir Inl show ?thesis by (intro raised [of e]) simp_all
    next
      case gr: (Inr gr)
      have b: "below_limits s ip d \<longleftrightarrow> count_at s ir < IP_LIMIT \<and> count_at s gr < GLOBAL_LIMIT"
        by (simp add: below_limits_def ipCount_def globalCount_def ir gr)
      show ?thesis
      proof (cases "fault = NoFault")
        case True
        show ?thesis
        proof (cases "below_limits s ip d")
          case True
          with q ir gr b \<open>fault = NoFault\<close> show ?thesis
            by (intro admitted [of ir gr])
               (simp_all add: checkAndRecordUsage_def quota_path_def runTransaction_NoFault)
        next
          case False
          with q ir gr b \<open>fault = NoFault\<close> show ?thesis
            by (intro denied [of ir gr])
               (simp_all add: checkAndRecordUsage_def quota_path_def runTransaction_NoFault)
        qed
      next
        case False
        then have "\<exists>e ops. runTransaction fault s (updateFunction fault ir gr)
                     = (Inl e, s, TxGet ir # ops)"
          by (cases fault)
             (auto simp: runTransaction_def updateFunction_def transaction_get_def
                transaction_set_def Let_def)
        then obtain e ops where
          "runTransaction fault s (updateFunction fault ir gr) = (Inl e, s, TxGet ir # ops)"
          by blast
        with q ir gr False show ?thesis
          by (intro denied [of ir gr ops])
             (simp_all add: checkAndRecordUsage_def quota_path_def)
      qed
    qed
  qed
qed

section \<open>Allow-listed callers\<close>

text \<open>
  C4. For a client identifier that is a member of the allow-list, \<^verbatim>\<open>checkAndRecordUsage\<close>
  returns \<^verbatim>\<open>true\<close> whatever the counters hold, whatever the bypass flag is and whatever
  would happen to a transaction; it issues no store operation, neither a read nor a
  write, and leaves the store as it was.
\<close>

theorem C4_allow_listed_exempt:
  "ipAddress \<in> set (WHITELISTED_IPS cfg) \<Longrightarrow>
     checkAndRecordUsage cfg fault today ipAddress s =
       Inr \<lparr>allowed = True, store_after = s, trace = []\<rparr>"
  by (simp add: checkAndRecordUsage_def)

theorem C4_allow_listed_exempt_witness:
  "''10.0.0.7'' \<in> set (WHITELISTED_IPS
      \<lparr>WHITELISTED_IPS = [''10.0.0.7''], env_BYPASS_RATE_LIMITING = None\<rparr>) \<and>
   checkAndRecordUsage \<lparr>WHITELISTED_IPS = [''10.0.0.7''], env_BYPASS_RATE_LIMITING = None\<rparr>
       CommitFails ''2024-05-01'' ''10.0.0.7''
       [[''ip-usage'', ''10.0.0.7_2024-05-01''] \<mapsto> 100,
        [''global-usage'', ''2024-05-01''] \<mapsto> 1000] =
     Inr \<lparr>allowed = True,
      store_after =
        [[''ip-usage'', ''10.0.0.7_2024-05-01''] \<mapsto> 100,
         [''global-usage'', ''2024-05-01''] \<mapsto> 1000],
      trace = []\<rparr>"
  using C4_allow_listed_exempt
    [of "''10.0.0.7''" "\<lparr>WHITELISTED_IPS = [''10.0.0.7''], env_BYPASS_RATE_LIMITING = None\<rparr>"
        CommitFails "''2024-05-01''"
        "[[''ip-usage'', ''10.0.0.7_2024-05-01''] \<mapsto> 100,
          [''global-usage'', ''2024-05-01''] \<mapsto> 1000]"]
  by simp

section \<open>One call on the quota path\<close>

text \<open>
  C5. A call that goes past the bypass and the allow-list either returns \<^verbatim>\<open>true\<close> and
  has raised the per-client count and the global count by exactly one each, every other
  document being untouched, or leaves the whole store as it was. No call updates one of
  the two counters only.
\<close>

theorem C5_all_or_nothing:
  assumes "quota_path cfg ipAddress"
  shows "(let r = checkAndRecordUsage cfg fault today ipAddress s; s' = store_left s r
          in if returned_true r
             then ipCount s' ipAddress today = ipCount s ipAddress today + 1 \<and>
                  globalCount s' today = globalCount s today + 1 \<and>
                  (\<forall>ref. Inr ref \<noteq> ipDocRef ipAddress today \<and> Inr ref \<noteq> globalDocRef today
                        \<longrightarrow> s' ref = s ref)
             else s' = s)"
proof (cases rule: checkAndRecordUsage_cases [of cfg ipAddress fault today s])
  case exempt
  with assms show ?thesis by simp
next
  case (raised e)
  then show ?thesis by (simp add: returned_true_def store_left_def)
next
  case (denied ir gr ops)
  then show ?thesis by (simp add: returned_true_def store_left_def)
next
  case (admitted ir gr ops)
  from admitted(2,3) have "ir \<noteq> gr" by (rule docrefs_distinct)
  with admitted show ?thesis
    by (auto simp: returned_true_def store_left_def ipCount_def globalCount_def count_at_upd)
qed

theorem C5_all_or_nothing_witness:
  "quota_path \<lparr>WHITELISTED_IPS = [''10.0.0.7''], env_BYPASS_RATE_LIMITING = None\<rparr>
     ''203.0.113.9'' \<and>
   returned_true (checkAndRecordUsage
     \<lparr>WHITELISTED_IPS = [''10.0.0.7''], env_BYPASS_RATE_LIMITING = None\<rparr>
     NoFault ''2024-05-01'' ''203.0.113.9'' [[''global-usage'', ''2024-05-01''] \<mapsto> 41]) \<and>
   ipCount (store_left [[''global-usage'', ''2024-05-01''] \<mapsto> 41] (checkAndRecordUsage
     \<lparr>WHITELISTED_IPS = [''10.0.0.7''], env_BYPASS_RATE_LIMITING = None\<rparr>
     NoFault ''2024-05-01'' ''203.0.113.9'' [[''global-usage'', ''2024-05-01''] \<mapsto> 41]))
     ''203.0.113.9'' ''2024-05-01'' = 1 \<and>
   globalCount (store_left [[''global-usage'', ''2024-05-01''] \<mapsto> 41] (checkAndRecordUsage
     \<lparr>WHITELISTED_IPS = [''10.0.0.7''], env_BYPASS_RATE_LIMITING = None\<rparr>
     NoFault ''2024-05-01'' ''203.0.113.9'' [[''global-usage'', ''2024-05-01''] \<mapsto> 41]))
     ''2024-05-01'' = 42"
proof -
  let ?cfg = "\<lparr>WHITELISTED_IPS = [''10.0.0.7''], env_BYPASS_RATE_LIMITING = None\<rparr>"
  let ?s = "[[''global-usage'', ''2024-05-01''] \<mapsto> (41::int)]"
  have q: "quota_path ?cfg ''203.0.113.9''"
    by (simp add: quota_path_def)
  have ir: "ipDocRef ''203.0.113.9'' ''2024-05-01'' = Inr [''ip-usage'', ''203.0.113.9_2024-05-01'']"
    by (simp add: ipDocRef_plain day_2024)
  have gr: "globalDocRef ''2024-05-01'' = Inr [''global-usage'', ''2024-05-01'']"
    by (simp add: globalDocRef_day day_2024)
  have i: "ipCount ?s ''203.0.113.9'' ''2024-05-01'' = 0"
    by (simp add: ipCount_def ir count_at_def)
  have g: "globalCount ?s ''2024-05-01'' = 41"
    by (simp add: globalCount_def gr count_at_def)
  have a: "returned_true (checkAndRecordUsage ?cfg NoFault ''2024-05-01'' ''203.0.113.9'' ?s)"
  proof (cases rule: checkAndRecordUsage_cases
      [of ?cfg "''203.0.113.9''" NoFault "''2024-05-01''" ?s])
    case exempt
    with q show ?thesis by simp
  next
    case (raised e)
    with ir gr show ?thesis by simp
  next
    case (denied ir' gr' ops)
    with i g show ?thesis by (simp add: below_limits_def IP_LIMIT_def GLOBAL_LIMIT_def)
  next
    case (admitted ir' gr' ops)
    then show ?thesis by (simp add: returned_true_def)
  qed
  from C5_all_or_nothing [OF q, of NoFault "''2024-05-01''" ?s] a i g q
  show ?thesis
    by (simp add: Let_def)
qed

section \<open>Resolving the client identifier\<close>

lemma resolve_ipAddress_total: "\<exists>v. resolve_ipAddress req = Inr v"
  using js_split_nonempty
  by (auto simp: resolve_ipAddress_def Let_def split: option.splits list.splits)

lemma js_trim_spec:
  "\<exists>l r. x = l @ js_trim x @ r \<and> list_all js_whitespace l \<and> list_all js_whitespace r \<and>
         (js_trim x = [] \<or> (\<not> js_whitespace (hd (js_trim x)) \<and> \<not> js_whitespace (last (js_trim x))))"
proof -
  let ?a = "dropWhile js_whitespace x"
  let ?l = "takeWhile js_whitespace x"
  let ?r = "rev (takeWhile js_whitespace (rev ?a))"
  have x: "x = ?l @ ?a" by simp
  have a: "?a = js_trim x @ ?r"
    unfolding js_trim_def
    by (metis rev_append rev_rev_ident takeWhile_dropWhile_id)
  have l: "list_all js_whitespace ?l"
    by (simp add: list_all_iff) (meson set_takeWhileD)
  have r: "list_all js_whitespace ?r"
    by (simp add: list_all_iff) (meson set_takeWhileD)
  have e: "js_trim x = [] \<or> (\<not> js_whitespace (hd (js_trim x)) \<and> \<not> js_whitespace (last (js_trim x)))"
  proof (cases "js_trim x = []")
    case True then show ?thesis by simp
  next
    case False
    let ?b = "dropWhile js_whitespace (rev ?a)"
    from False have b: "?b \<noteq> []" by (simp add: js_trim_def)
    then have "\<not> js_whitespace (hd ?b)" by (rule hd_dropWhile)
    then have last: "\<not> js_whitespace (last (js_trim x))"
      using b by (simp add: js_trim_def last_rev)
    have an: "?a \<noteq> []"
    proof
      assume "?a = []"
      then have "?b = []" by (simp only: rev.simps(1) dropWhile.simps(1))
      with b show False by contradiction
    qed
    then have ha: "\<not> js_whitespace (hd ?a)" by (rule hd_dropWhile)
    from a False have "hd (js_trim x) = hd ?a"
      by (metis hd_append2)
    with ha last show ?thesis by simp
  qed
  from x a have "x = ?l @ js_trim x @ ?r" by simp
  with l r e show ?thesis by blast
qed

text \<open>
  The identifier \<^verbatim>\<open>src/index.ts\<close> passes on: resolving never fails; a non-empty
  forwarded header gives its first comma-separated entry, trimmed; otherwise the peer
  address; and the empty string when there is neither.
\<close>

lemma clientIdentifier_spec:
  "\<exists>ident. clientIdentifier req = Inr ident \<and>
     (\<forall>f. req_X_Forwarded_For req = Some f \<and> f \<noteq> [] \<longrightarrow>
            ident = js_trim (takeWhile (\<lambda>c. c \<noteq> CHR '','') f)) \<and>
     (req_X_Forwarded_For req = None \<or> req_X_Forwarded_For req = Some [] \<longrightarrow>
        (\<forall>a. req_ip req = Some a \<longrightarrow> ident = a) \<and>
        (req_ip req = None \<longrightarrow> ident = []))"
proof (cases "req_X_Forwarded_For req")
  case None
  then show ?thesis
    by (auto simp: clientIdentifier_def resolve_ipAddress_def or_empty_def Let_def
          split: option.splits)
next
  case (Some f)
  show ?thesis
  proof (cases "f = []")
    case True
    with Some show ?thesis
      by (auto simp: clientIdentifier_def resolve_ipAddress_def or_empty_def Let_def
            split: option.splits)
  next
    case False
    have "js_split CHR '','' f = takeWhile (\<lambda>c. c \<noteq> CHR '','') f # tl (js_split CHR '','' f)"
      by (rule js_split_hd)
    then obtain rest where "js_split CHR '','' f = takeWhile (\<lambda>c. c \<noteq> CHR '','') f # rest"
      by blast
    with Some False show ?thesis
      by (simp add: clientIdentifier_def resolve_ipAddress_def or_empty_def Let_def)
  qed
qed

section \<open>Store failure\<close>




section \<open>Histories of calls\<close>

lemma admit_ipCount_le:
  assumes "ipCount s ip d \<le> IP_LIMIT"
  shows "ipCount (store_left s (admit cfg k s)) ip d \<le> IP_LIMIT"
proof (cases rule: checkAndRecordUsage_cases [of cfg "call_ip k" "call_fault k" "call_today k" s])
  case exempt
  with assms show ?thesis by (simp add: admit_def store_left_def)
next
  case (raised e)
  with assms show ?thesis by (simp add: admit_def store_left_def)
next
  case (denied ir gr ops)
  with assms show ?thesis by (simp add: admit_def store_left_def)
next
  case (admitted ir gr ops)
  show ?thesis
  proof (cases "ipDocRef ip d")
    case (Inl e)
    then show ?thesis using limits_positive by (simp add: ipCount_def)
  next
    case (Inr r)
    from Inr admitted(3) have "r \<noteq> gr" by (rule docrefs_distinct)
    moreover from admitted have "count_at s ir < IP_LIMIT"
      by (simp add: below_limits_def ipCount_def)
    ultimately show ?thesis
      using assms admitted Inr
      by (simp add: admit_def store_left_def ipCount_def count_at_upd)
  qed
qed

lemma admit_globalCount_le:
  assumes "globalCount s d \<le> GLOBAL_LIMIT"
  shows "globalCount (store_left s (admit cfg k s)) d \<le> GLOBAL_LIMIT"
proof (cases rule: checkAndRecordUsage_cases [of cfg "call_ip k" "call_fault k" "call_today k" s])
  case exempt
  with assms show ?thesis by (simp add: admit_def store_left_def)
next
  case (raised e)
  with assms show ?thesis by (simp add: admit_def store_left_def)
next
  case (denied ir gr ops)
  with assms show ?thesis by (simp add: admit_def store_left_def)
next
  case (admitted ir gr ops)
  show ?thesis
  proof (cases "globalDocRef d")
    case (Inl e)
    then show ?thesis using limits_positive by (simp add: globalCount_def)
  next
    case (Inr r)
    from admitted(2) Inr have "ir \<noteq> r" by (rule docrefs_distinct)
    moreover from admitted have "count_at s gr < GLOBAL_LIMIT"
      by (simp add: below_limits_def globalCount_def)
    ultimately show ?thesis
      using assms admitted Inr
      by (simp add: admit_def store_left_def globalCount_def count_at_upd)
  qed
qed

lemma admit_within_limits:
  "within_limits s \<Longrightarrow> within_limits (store_left s (admit cfg k s))"
  by (simp add: within_limits_def admit_ipCount_le admit_globalCount_le)

text \<open>
  C1. From a store in which every per-client count is at most 100 and every global count
  at most 1000 (the empty store is one), every history of calls, whoever makes them, on
  whatever day and whatever hits their transactions, leaves after each call a store with
  the same bounds: no per-client count of any client and day exceeds 100, and no global
  count of any day exceeds 1000.
\<close>

theorem C1_counts_within_limits:
  "within_limits s \<Longrightarrow> \<forall>s' \<in> set (stores cfg s ks). within_limits s'"
proof (induction ks arbitrary: s)
  case Nil
  show ?case by simp
next
  case (Cons k ks)
  from Cons.prems have "within_limits (store_left s (admit cfg k s))"
    by (rule admit_within_limits)
  with Cons.IH [of "store_left s (admit cfg k s)"] show ?case
    by simp
qed

theorem C1_counts_within_limits_witness:
  "within_limits [[''ip-usage'', ''203.0.113.9_2024-05-01''] \<mapsto> 99,
                  [''global-usage'', ''2024-05-01''] \<mapsto> 999] \<and>
   within_limits (last
     (stores \<lparr>WHITELISTED_IPS = [], env_BYPASS_RATE_LIMITING = None\<rparr>
        [[''ip-usage'', ''203.0.113.9_2024-05-01''] \<mapsto> 99,
         [''global-usage'', ''2024-05-01''] \<mapsto> 999]
        [\<lparr>call_ip = ''203.0.113.9'', call_today = ''2024-05-01'', call_fault = NoFault\<rparr>,
         \<lparr>call_ip = ''203.0.113.9'', call_today = ''2024-05-01'', call_fault = NoFault\<rparr>,
         \<lparr>call_ip = ''198.51.100.4'', call_today = ''2024-05-01'', call_fault = NoFault\<rparr>]))"
proof -
  let ?s = "[[''ip-usage'', ''203.0.113.9_2024-05-01''] \<mapsto> 99,
             [''global-usage'', ''2024-05-01''] \<mapsto> (999::int)]"
  let ?ks = "[\<lparr>call_ip = ''203.0.113.9'', call_today = ''2024-05-01'', call_fault = NoFault\<rparr>,
         \<lparr>call_ip = ''203.0.113.9'', call_today = ''2024-05-01'', call_fault = NoFault\<rparr>,
         \<lparr>call_ip = ''198.51.100.4'', call_today = ''2024-05-01'', call_fault = NoFault\<rparr>]"
  let ?cfg = "\<lparr>WHITELISTED_IPS = [], env_BYPASS_RATE_LIMITING = None\<rparr>"
  have w: "within_limits ?s"
    by (auto simp: within_limits_def ipCount_def globalCount_def count_at_def IP_LIMIT_def
          GLOBAL_LIMIT_def split: sum.splits dest!: ipDocRef_hd globalDocRef_hd)
  have "last (stores ?cfg ?s ?ks) \<in> set (stores ?cfg ?s ?ks)"
    by (intro last_in_set) simp
  with C1_counts_within_limits [OF w, of ?cfg ?ks] w show ?thesis
    by blast
qed








lemma final_store_append:
  "final_store cfg s (xs @ ys) = final_store cfg (final_store cfg s xs) ys"
  by (induction xs arbitrary: s) simp_all




section \<open>The empty identifier\<close>

text \<open>
  C7, as stated, fails. The allow-list is tested with \<^verbatim>\<open>WHITELISTED_IPS.includes\<close> and
  nothing sets the empty string apart: with an allow-list that holds the empty string,
  the empty identifier is allow-listed, and the call returns \<^verbatim>\<open>true\<close> without a store
  operation although its counter is at the limit.
\<close>

theorem C7_empty_identifier_counterexample:
  "[] \<in> set (WHITELISTED_IPS \<lparr>WHITELISTED_IPS = [[]], env_BYPASS_RATE_LIMITING = None\<rparr>) \<and>
   \<not> quota_path \<lparr>WHITELISTED_IPS = [[]], env_BYPASS_RATE_LIMITING = None\<rparr> [] \<and>
   ipCount [[''ip-usage'', ''_2024-05-01''] \<mapsto> 100, [''global-usage'', ''2024-05-01''] \<mapsto> 1000]
     [] ''2024-05-01'' = 100 \<and>
   checkAndRecordUsage \<lparr>WHITELISTED_IPS = [[]], env_BYPASS_RATE_LIMITING = None\<rparr>
       NoFault ''2024-05-01'' []
       [[''ip-usage'', ''_2024-05-01''] \<mapsto> 100, [''global-usage'', ''2024-05-01''] \<mapsto> 1000] =
     Inr \<lparr>allowed = True,
      store_after =
        [[''ip-usage'', ''_2024-05-01''] \<mapsto> 100, [''global-usage'', ''2024-05-01''] \<mapsto> 1000],
      trace = []\<rparr>"
proof -
  have "ipDocRef [] ''2024-05-01'' = Inr [''ip-usage'', ''_2024-05-01'']"
    using ipDocRef_plain [OF day_2024(1), of "[]"] by simp
  then show ?thesis
    by (simp add: checkAndRecordUsage_def quota_path_def ipCount_def count_at_def)
qed

text \<open>
  C7, amended. When the allow-list does not hold the empty string and the bypass is off,
  a call with the empty identifier goes through the transaction like any other, on any
  day: it is admitted exactly when the transaction is not rejected and both counts are
  below their limits, it then raises both counts by one, and its per-client document is
  \<^verbatim>\<open>_\<close> followed by the day.
\<close>

theorem C7_empty_identifier_on_quota_path:
  assumes "[] \<notin> set (WHITELISTED_IPS cfg)"
    and "env_BYPASS_RATE_LIMITING cfg \<noteq> Some ''true''"
    and "is_day today"
  shows "(returned_true (checkAndRecordUsage cfg fault today [] s)
            \<longleftrightarrow> fault = NoFault \<and> below_limits s [] today) \<and>
         store_left s (checkAndRecordUsage cfg fault today [] s) =
           (if fault = NoFault \<and> below_limits s [] today
            then s([''ip-usage'', ''_'' @ today] \<mapsto> ipCount s [] today + 1,
                   [''global-usage'', today] \<mapsto> globalCount s today + 1)
            else s) \<and>
         (\<exists>out rest. checkAndRecordUsage cfg fault today [] s = Inr out \<and>
                     trace out = TxGet [''ip-usage'', ''_'' @ today] # rest)"
proof -
  from assms have q: "quota_path cfg []"
    by (simp add: quota_path_def)
  have ir: "ipDocRef [] today = Inr [''ip-usage'', ''_'' @ today]"
    using ipDocRef_plain [OF assms(3), of "[]"] by simp
  have gr: "globalDocRef today = Inr [''global-usage'', today]"
    using assms(3) by (rule globalDocRef_day)
  show ?thesis
  proof (cases rule: checkAndRecordUsage_cases [of cfg "[]" fault today s])
    case exempt
    with q show ?thesis by simp
  next
    case (raised e)
    with ir gr show ?thesis by simp
  next
    case (denied ir' gr' ops)
    with ir gr show ?thesis
      by (auto simp: returned_true_def store_left_def)
  next
    case (admitted ir' gr' ops)
    with ir gr show ?thesis
      by (simp add: returned_true_def store_left_def ipCount_def globalCount_def)
  qed
qed

theorem C7_empty_identifier_on_quota_path_witness:
  "[] \<notin> set (WHITELISTED_IPS \<lparr>WHITELISTED_IPS = [''10.0.0.7''], env_BYPASS_RATE_LIMITING = None\<rparr>) \<and>
   env_BYPASS_RATE_LIMITING \<lparr>WHITELISTED_IPS = [''10.0.0.7''], env_BYPASS_RATE_LIMITING = None\<rparr>
     \<noteq> Some ''true'' \<and>
   is_day ''2024-05-01'' \<and>
   returned_true (checkAndRecordUsage
     \<lparr>WHITELISTED_IPS = [''10.0.0.7''], env_BYPASS_RATE_LIMITING = None\<rparr>
     NoFault ''2024-05-01'' [] Map.empty) \<and>
   store_left Map.empty (checkAndRecordUsage
       \<lparr>WHITELISTED_IPS = [''10.0.0.7''], env_BYPASS_RATE_LIMITING = None\<rparr>
       NoFault ''2024-05-01'' [] Map.empty) =
     [[''ip-usage'', ''_2024-05-01''] \<mapsto> 1, [''global-usage'', ''2024-05-01''] \<mapsto> 1]"
proof -
  let ?cfg = "\<lparr>WHITELISTED_IPS = [''10.0.0.7''], env_BYPASS_RATE_LIMITING = None\<rparr>"
  have a: "[] \<notin> set (WHITELISTED_IPS ?cfg)" by simp
  have b: "env_BYPASS_RATE_LIMITING ?cfg \<noteq> Some ''true''" by simp
  have ir: "ipDocRef [] ''2024-05-01'' = Inr [''ip-usage'', ''_2024-05-01'']"
    using ipDocRef_plain [OF day_2024(1), of "[]"] by simp
  have gr: "globalDocRef ''2024-05-01'' = Inr [''global-usage'', ''2024-05-01'']"
    by (simp add: globalDocRef_day day_2024)
  have i: "ipCount Map.empty [] ''2024-05-01'' = 0" by (simp add: ipCount_def ir count_at_def)
  have g: "globalCount Map.empty ''2024-05-01'' = 0"
    by (simp add: globalCount_def gr count_at_def)
  from i g have c: "below_limits Map.empty [] ''2024-05-01''"
    by (simp add: below_limits_def IP_LIMIT_def GLOBAL_LIMIT_def)
  from C7_empty_identifier_on_quota_path
    [OF a b day_2024(1), of NoFault Map.empty] a b c i g day_2024(1)
  show ?thesis by simp
qed

section \<open>The two implementations\<close>

text \<open>
  On a string the function of \<^verbatim>\<open>index.js\<close> is the function of \<^verbatim>\<open>src/index.ts\<close>; on
  \<^verbatim>\<open>undefined\<close> it is the quota path of the identifier \<^verbatim>\<open>undefined\<close>, never
  allow-listed. The two handlers agree on every request that has a peer address or a
  non-empty forwarded header.
\<close>

lemma checkAndRecordUsage_js_Some:
  "checkAndRecordUsage_js cfg fault today (Some x) s = checkAndRecordUsage cfg fault today x s"
  by (simp add: checkAndRecordUsage_js_def checkAndRecordUsage_def template_literal_def)

lemma checkAndRecordUsage_js_None:
  "checkAndRecordUsage_js cfg fault today None s =
     checkAndRecordUsage (cfg\<lparr>WHITELISTED_IPS := []\<rparr>) fault today ''undefined'' s"
  by (simp add: checkAndRecordUsage_js_def checkAndRecordUsage_def template_literal_def)

lemma apiProxy_js_agrees:
  assumes "req_ip req \<noteq> None \<or> (\<exists>f. req_X_Forwarded_For req = Some f \<and> f \<noteq> [])"
  shows "apiProxy_js cfg ps fault today req s = apiProxy cfg ps fault today req s"
proof -
  from resolve_ipAddress_total obtain v where v: "resolve_ipAddress req = Inr v"
    by blast
  with assms obtain x where "v = Some x"
    by (auto simp: resolve_ipAddress_def Let_def split: option.splits if_splits list.splits)
  moreover have "or_empty (Some x) = x"
    by (simp add: or_empty_def)
  ultimately show ?thesis
    using v by (simp add: apiProxy_js_def apiProxy_def checkAndRecordUsage_js_Some)
qed

text \<open>
  C9. For a request with no forwarded header and no peer address, \<^verbatim>\<open>src/index.ts\<close>
  passes the empty string, as the claim says, and \<^verbatim>\<open>index.js\<close> passes \<^verbatim>\<open>undefined\<close>:
  its transaction reads and writes the document \<^verbatim>\<open>undefined_2024-05-01\<close>.
\<close>

theorem C9_js_passes_undefined:
  "resolve_ipAddress \<lparr>req_path = ''/tts'', req_ip = None, req_X_Forwarded_For = None,
      req_body_prompt = Some ''hello''\<rparr> = Inr None \<and>
   clientIdentifier \<lparr>req_path = ''/tts'', req_ip = None, req_X_Forwarded_For = None,
      req_body_prompt = Some ''hello''\<rparr> = Inr [] \<and>
   checkAndRecordUsage_js \<lparr>WHITELISTED_IPS = [], env_BYPASS_RATE_LIMITING = None\<rparr>
      NoFault ''2024-05-01'' None Map.empty =
     Inr \<lparr>allowed = True,
          store_after = [[''ip-usage'', ''undefined_2024-05-01''] \<mapsto> 1,
                         [''global-usage'', ''2024-05-01''] \<mapsto> 1],
          trace = [TxGet [''ip-usage'', ''undefined_2024-05-01''],
                   TxGet [''global-usage'', ''2024-05-01''],
                   TxSet [''ip-usage'', ''undefined_2024-05-01''] 1,
                   TxSet [''global-usage'', ''2024-05-01''] 1]\<rparr>"
  by (simp add: resolve_ipAddress_def clientIdentifier_def or_empty_def Let_def
        checkAndRecordUsage_js_def template_literal_def undefined_2024 runTransaction_NoFault
        count_at_def IP_LIMIT_def GLOBAL_LIMIT_def)

text \<open>
  C8. On the same request, with neither a forwarded header nor a peer address, the two
  handlers leave different stores (the per-client document is \<^verbatim>\<open>_2024-05-01\<close> for
  \<^verbatim>\<open>src/index.ts\<close> and \<^verbatim>\<open>undefined_2024-05-01\<close> for \<^verbatim>\<open>index.js\<close>), and with the empty
  string on the allow-list and the latter document at the limit they decide differently:
  status 200 against status 429.
\<close>

theorem C8_js_and_ts_differ:
  "snd (apiProxy \<lparr>WHITELISTED_IPS = [], env_BYPASS_RATE_LIMITING = None\<rparr>
      \<lparr>handleTTS = (\<lambda>p. Inr ''QUJD''), handleOpenAI = (\<lambda>p. Inl ProviderError),
       handleGemini = (\<lambda>p. Inr ''ok'')\<rparr>
      NoFault ''2024-05-01''
      \<lparr>req_path = ''/tts'', req_ip = None, req_X_Forwarded_For = None,
       req_body_prompt = Some ''hello''\<rparr> Map.empty) =
     [[''ip-usage'', ''_2024-05-01''] \<mapsto> 1, [''global-usage'', ''2024-05-01''] \<mapsto> 1] \<and>
   snd (apiProxy_js \<lparr>WHITELISTED_IPS = [], env_BYPASS_RATE_LIMITING = None\<rparr>
      \<lparr>handleTTS = (\<lambda>p. Inr ''QUJD''), handleOpenAI = (\<lambda>p. Inl ProviderError),
       handleGemini = (\<lambda>p. Inr ''ok'')\<rparr>
      NoFault ''2024-05-01''
      \<lparr>req_path = ''/tts'', req_ip = None, req_X_Forwarded_For = None,
       req_body_prompt = Some ''hello''\<rparr> Map.empty) =
     [[''ip-usage'', ''undefined_2024-05-01''] \<mapsto> 1, [''global-usage'', ''2024-05-01''] \<mapsto> 1] \<and>
   fst (apiProxy \<lparr>WHITELISTED_IPS = [[]], env_BYPASS_RATE_LIMITING = None\<rparr>
      \<lparr>handleTTS = (\<lambda>p. Inr ''QUJD''), handleOpenAI = (\<lambda>p. Inl ProviderError),
       handleGemini = (\<lambda>p. Inr ''ok'')\<rparr>
      NoFault ''2024-05-01''
      \<lparr>req_path = ''/tts'', req_ip = None, req_X_Forwarded_For = None,
       req_body_prompt = Some ''hello''\<rparr>
      [[''ip-usage'', ''undefined_2024-05-01''] \<mapsto> 100]) =
     Inr \<lparr>res_status = 200, res_content_type = Some ''text/plain'',
          res_payload = TextBody ''QUJD''\<rparr> \<and>
   fst (apiProxy_js \<lparr>WHITELISTED_IPS = [[]], env_BYPASS_RATE_LIMITING = None\<rparr>
      \<lparr>handleTTS = (\<lambda>p. Inr ''QUJD''), handleOpenAI = (\<lambda>p. Inl ProviderError),
       handleGemini = (\<lambda>p. Inr ''ok'')\<rparr>
      NoFault ''2024-05-01''
      \<lparr>req_path = ''/tts'', req_ip = None, req_X_Forwarded_For = None,
       req_body_prompt = Some ''hello''\<rparr>
      [[''ip-usage'', ''undefined_2024-05-01''] \<mapsto> 100]) =
     Inr \<lparr>res_status = 429, res_content_type = None,
          res_payload = ErrorBody ''Rate limit exceeded.''\<rparr>"
  by (simp add: apiProxy_def apiProxy_js_def resolve_ipAddress_def or_empty_def Let_def
        checkAndRecordUsage_def checkAndRecordUsage_js_def template_literal_def undefined_2024
        runTransaction_NoFault count_at_def IP_LIMIT_def GLOBAL_LIMIT_def route_request_def
        rate_limited_def)

section \<open>Routing an admitted request\<close>

text \<open>
  C10. For an admitted request, in either implementation, the response is decided by the
  first of \<^verbatim>\<open>/tts\<close>, \<^verbatim>\<open>/openai\<close>, \<^verbatim>\<open>/gemini\<close> that occurs somewhere in the path, in this
  order: a path in which \<^verbatim>\<open>/tts\<close> occurs is answered from \<^verbatim>\<open>handleTTS\<close> whatever else it
  contains, and a path in which none occurs is answered with status 404 and the error
  \<^verbatim>\<open>Endpoint not found.\<close>
\<close>

theorem C10_dispatch_order:
  assumes "resolve_ipAddress req = Inr v"
  shows "(let routed =
           (if \<exists>u w. req_path req = u @ ''/tts'' @ w then
              (case handleTTS ps (req_body_prompt req) of
                 Inr base64Audio \<Rightarrow>
                   \<lparr>res_status = 200, res_content_type = Some ''text/plain'',
                    res_payload = TextBody base64Audio\<rparr>
               | Inl e \<Rightarrow> internal_error)
            else if \<exists>u w. req_path req = u @ ''/openai'' @ w then
              (case handleOpenAI ps (req_body_prompt req) of
                 Inr textResponse \<Rightarrow>
                   \<lparr>res_status = 200, res_content_type = None,
                    res_payload = ReplyBody textResponse\<rparr>
               | Inl e \<Rightarrow> internal_error)
            else if \<exists>u w. req_path req = u @ ''/gemini'' @ w then
              (case handleGemini ps (req_body_prompt req) of
                 Inr textResponse \<Rightarrow>
                   \<lparr>res_status = 200, res_content_type = None,
                    res_payload = ReplyBody textResponse\<rparr>
               | Inl e \<Rightarrow> internal_error)
            else \<lparr>res_status = 404, res_content_type = None,
                   res_payload = ErrorBody ''Endpoint not found.''\<rparr>)
          in (returned_true (checkAndRecordUsage cfg fault today (or_empty v) s) \<longrightarrow>
                fst (apiProxy cfg ps fault today req s) = Inr routed) \<and>
             (returned_true (checkAndRecordUsage_js cfg fault today v s) \<longrightarrow>
                fst (apiProxy_js cfg ps fault today req s) = Inr routed))"
  using assms
  by (auto simp: apiProxy_def apiProxy_js_def Let_def route_request_def js_includes_iff
        returned_true_def split: sum.splits)

theorem C10_dispatch_order_witness:
  "resolve_ipAddress \<lparr>req_path = ''/openai/tts'', req_ip = Some ''203.0.113.9'',
      req_X_Forwarded_For = None, req_body_prompt = Some ''hello''\<rparr>
     = Inr (Some ''203.0.113.9'') \<and>
   returned_true (checkAndRecordUsage \<lparr>WHITELISTED_IPS = [], env_BYPASS_RATE_LIMITING = None\<rparr>
      NoFault ''2024-05-01'' (or_empty (Some ''203.0.113.9'')) Map.empty) \<and>
   fst (apiProxy \<lparr>WHITELISTED_IPS = [], env_BYPASS_RATE_LIMITING = None\<rparr>
      \<lparr>handleTTS = (\<lambda>p. Inr ''QUJD''), handleOpenAI = (\<lambda>p. Inl ProviderError),
       handleGemini = (\<lambda>p. Inr ''ok'')\<rparr>
      NoFault ''2024-05-01''
      \<lparr>req_path = ''/openai/tts'', req_ip = Some ''203.0.113.9'',
       req_X_Forwarded_For = None, req_body_prompt = Some ''hello''\<rparr> Map.empty) =
     Inr \<lparr>res_status = 200, res_content_type = Some ''text/plain'',
          res_payload = TextBody ''QUJD''\<rparr>"
proof -
  let ?cfg = "\<lparr>WHITELISTED_IPS = [], env_BYPASS_RATE_LIMITING = None\<rparr>"
  let ?ps = "\<lparr>handleTTS = (\<lambda>p. Inr ''QUJD''), handleOpenAI = (\<lambda>p. Inl ProviderError),
       handleGemini = (\<lambda>p. Inr ''ok'')\<rparr>"
  let ?req = "\<lparr>req_path = ''/openai/tts'', req_ip = Some ''203.0.113.9'',
       req_X_Forwarded_For = None, req_body_prompt = Some ''hello''\<rparr>"
  have r: "resolve_ipAddress ?req = Inr (Some ''203.0.113.9'')"
    by (simp add: resolve_ipAddress_def Let_def)
  have ir: "ipDocRef ''203.0.113.9'' ''2024-05-01'' = Inr [''ip-usage'', ''203.0.113.9_2024-05-01'']"
    by (simp add: ipDocRef_plain day_2024)
  have a: "returned_true (checkAndRecordUsage ?cfg NoFault ''2024-05-01''
             (or_empty (Some ''203.0.113.9'')) Map.empty)"
    by (simp add: or_empty_def checkAndRecordUsage_def ir undefined_2024 runTransaction_NoFault
          count_at_def IP_LIMIT_def GLOBAL_LIMIT_def returned_true_def)
  have "req_path ?req = ''/openai'' @ ''/tts'' @ []"
    by simp
  then have p: "\<exists>u w. req_path ?req = u @ ''/tts'' @ w"
    by blast
  from C10_dispatch_order [OF r, of ?ps ?cfg NoFault "''2024-05-01''" Map.empty] a p r
  show ?thesis
    by (simp add: Let_def)
qed

end
